theory Spec2Isabelle
  imports Main "HOL-Library.Multiset" "HOL-Library.Sublist"
begin

section \<open>Data model\<close>

text \<open>
  The script catalog entry, as the Go struct \<^verbatim>\<open>NpmScript\<close>.
\<close>

record NpmScript =
  PackageName :: string
  ScriptName :: string
  Command :: string
  AbsolutePath :: string

text \<open>
  The dynamic values that \<^verbatim>\<open>json.Unmarshal\<close> stores in a \<^verbatim>\<open>map[string]any\<close>:
  nil, bool, float64, string, \<^verbatim>\<open>[]any\<close> and \<^verbatim>\<open>map[string]any\<close>. The payload of a
  number is never inspected by the program. A Go map has each key once; an object is
  an association list, read with \<open>map_of\<close>, and where the number of keys matters the
  keys are required to be distinct. \<open>AStrSlice\<close> is the dynamic type \<^verbatim>\<open>[]string\<close>: the
  type switch of the extractor tests for it, but the decoder never produces it (a JSON
  array always decodes to \<^verbatim>\<open>[]any\<close>, here \<open>AArr\<close>).
\<close>

datatype any =
    ANil
  | ABool bool
  | ANum int
  | AStr string
  | AArr "any list"
  | AObj "(string \<times> any) list"
  | AStrSlice "string list"

text \<open>
  The operating-system and library calls of the program, as functions of the
  file-system state:
  \<^item> \<open>readJSON p\<close>: \<^verbatim>\<open>os.Open\<close>, \<^verbatim>\<open>io.ReadAll\<close> and \<^verbatim>\<open>json.Unmarshal\<close> into a
    \<^verbatim>\<open>map[string]any\<close>; \<open>None\<close> when any of the three fails;
  \<^item> \<open>readYAML p\<close>: the \<^verbatim>\<open>packages\<close> list of a workspace file (\<^verbatim>\<open>yaml.Unmarshal\<close> into
    \<^verbatim>\<open>pnpmWorkspace\<close>); \<open>None\<close> when opening, reading or parsing fails;
  \<^item> \<open>stat p\<close>: \<^verbatim>\<open>os.Stat(p)\<close> returns no error;
  \<^item> \<open>glob p\<close>: \<^verbatim>\<open>filepath.Glob(p)\<close>; \<open>None\<close> is \<^verbatim>\<open>ErrBadPattern\<close>;
  \<^item> \<open>joinPath\<close>, \<open>dirOf\<close>: \<^verbatim>\<open>filepath.Join\<close> of two elements and \<^verbatim>\<open>filepath.Dir\<close>.
\<close>

record fsys =
  readJSON :: "string \<Rightarrow> (string \<times> any) list option"
  readYAML :: "string \<Rightarrow> string list option"
  stat :: "string \<Rightarrow> bool"
  glob :: "string \<Rightarrow> string list option"
  joinPath :: "string \<Rightarrow> string \<Rightarrow> string"
  dirOf :: "string \<Rightarrow> string"

text \<open>
  A failed single-value type assertion panics, and a panic in any goroutine ends the
  process: it is the one error that reaches the result of a run.
\<close>

datatype error = Panic

section \<open>Strings\<close>

text \<open>
  \<^verbatim>\<open>strings.ContainsAny\<close>, \<^verbatim>\<open>strings.TrimSpace\<close>, \<^verbatim>\<open>strings.HasPrefix\<close> and
  \<^verbatim>\<open>strings.TrimPrefix\<close> on byte strings. The white space trimmed is the ASCII white
  space (tab, line feed, vertical tab, form feed, carriage return, space).
\<close>

definition containsAny :: "string \<Rightarrow> string \<Rightarrow> bool" where
  "containsAny s chars = (\<exists>c \<in> set s. c \<in> set chars)"

definition isSpace :: "char \<Rightarrow> bool" where
  "isSpace c = (c \<in> set [CHR 0x09, CHR 0x0A, CHR 0x0B, CHR 0x0C, CHR 0x0D, CHR '' ''])"

definition trimSpace :: "string \<Rightarrow> string" where
  "trimSpace s = rev (dropWhile isSpace (rev (dropWhile isSpace s)))"

definition hasPrefix :: "string \<Rightarrow> string \<Rightarrow> bool" where
  "hasPrefix s p = (take (length p) s = p)"

definition trimPrefix :: "string \<Rightarrow> string \<Rightarrow> string" where
  "trimPrefix s p = (if hasPrefix s p then drop (length p) s else s)"

section \<open>The workspace file: locatePnpmWorkspaces\<close>

text \<open>
  The errors of \<^verbatim>\<open>locatePnpmWorkspaces\<close>: the file cannot be opened, read or parsed, or
  a pattern is rejected by \<^verbatim>\<open>filepath.Glob\<close>.
\<close>

datatype wsError = FileError | IncludePatternError string | ExcludePatternError string

text \<open>The first loop: inclusion and exclusion patterns, each joined to the root.\<close>

fun separatePatterns :: "fsys \<Rightarrow> string \<Rightarrow> string list \<Rightarrow> string list \<Rightarrow> string list
    \<Rightarrow> string list \<times> string list" where
  "separatePatterns os root [] includePatterns excludePatterns =
     (includePatterns, excludePatterns)"
| "separatePatterns os root (pattern # rest) includePatterns excludePatterns =
     (let trimmed = trimSpace pattern in
      if hasPrefix trimmed ''!''
      then separatePatterns os root rest includePatterns
             (excludePatterns @ [joinPath os root (trimPrefix trimmed ''!'')])
      else separatePatterns os root rest
             (includePatterns @ [joinPath os root trimmed]) excludePatterns)"

text \<open>
  \<^verbatim>\<open>matchesSet\<close> is a \<^verbatim>\<open>map[string]bool\<close> used as a set: a list without duplicates,
  \<open>List.insert\<close> for the store and \<open>removeAll\<close> for \<^verbatim>\<open>delete\<close>. Both branches of the
  inner \<^verbatim>\<open>if\<close> store the match exactly when \<^verbatim>\<open>os.Stat\<close> succeeds.
\<close>

fun addMatches :: "fsys \<Rightarrow> string list \<Rightarrow> string list \<Rightarrow> string list" where
  "addMatches os [] matchesSet = matchesSet"
| "addMatches os (m # ms) matchesSet =
     (if stat os m then addMatches os ms (List.insert m matchesSet)
      else addMatches os ms matchesSet)"

fun processIncludes :: "fsys \<Rightarrow> string list \<Rightarrow> string list \<Rightarrow> wsError + string list" where
  "processIncludes os [] matchesSet = Inr matchesSet"
| "processIncludes os (pattern # rest) matchesSet =
     (case glob os pattern of
        None \<Rightarrow> Inl (IncludePatternError pattern)
      | Some matches \<Rightarrow> processIncludes os rest (addMatches os matches matchesSet))"

fun deleteMatches :: "string list \<Rightarrow> string list \<Rightarrow> string list" where
  "deleteMatches [] matchesSet = matchesSet"
| "deleteMatches (m # ms) matchesSet = deleteMatches ms (removeAll m matchesSet)"

fun processExcludes :: "fsys \<Rightarrow> string list \<Rightarrow> string list \<Rightarrow> wsError + string list" where
  "processExcludes os [] matchesSet = Inr matchesSet"
| "processExcludes os (pattern # rest) matchesSet =
     (case glob os pattern of
        None \<Rightarrow> Inl (ExcludePatternError pattern)
      | Some matches \<Rightarrow> processExcludes os rest (deleteMatches matches matchesSet))"

text \<open>
  The result slice is filled by ranging over the map, in an order Go leaves open; the
  model returns the elements in the order of the list that represents the set.
\<close>

definition locatePnpmWorkspaces :: "fsys \<Rightarrow> string \<Rightarrow> wsError + string list" where
  "locatePnpmWorkspaces os pnpmWorkspaceRoot =
     (case readYAML os (pnpmWorkspaceRoot @ ''/pnpm-workspace.yaml'') of
        None \<Rightarrow> Inl FileError
      | Some packages \<Rightarrow>
          (case separatePatterns os pnpmWorkspaceRoot packages [] [] of
             (includePatterns, excludePatterns) \<Rightarrow>
               (case processIncludes os includePatterns [] of
                  Inl e \<Rightarrow> Inl e
                | Inr matchesSet \<Rightarrow> processExcludes os excludePatterns matchesSet)))"

section \<open>The extractor: extractScriptsFromPackageJSON\<close>

text \<open>
  The loop over the \<^verbatim>\<open>scripts\<close> map. \<^verbatim>\<open>command.(string)\<close> is a single-value type
  assertion: it panics when the value is not a string.
\<close>

fun scriptsLoop :: "string \<Rightarrow> string \<Rightarrow> (string \<times> any) list \<Rightarrow> error + NpmScript list" where
  "scriptsLoop packageName filePath [] = Inr []"
| "scriptsLoop packageName filePath ((name, command) # rest) =
     (case command of
        AStr c \<Rightarrow>
          (case scriptsLoop packageName filePath rest of
             Inl e \<Rightarrow> Inl e
           | Inr scripts \<Rightarrow>
               Inr (\<lparr>PackageName = packageName, ScriptName = name, Command = c,
                      AbsolutePath = filePath\<rparr> # scripts))
      | _ \<Rightarrow> Inl Panic)"

definition packageNameOf :: "(string \<times> any) list \<Rightarrow> string" where
  "packageNameOf packageJSON =
     (case map_of packageJSON ''name'' of Some (AStr name) \<Rightarrow> name | _ \<Rightarrow> ''unknown'')"

text \<open>
  What the task sends on the channel for its own manifest: one batch when \<^verbatim>\<open>scripts\<close>
  is an object (also when the object is empty), nothing otherwise.
\<close>

definition ownBatches :: "string \<Rightarrow> (string \<times> any) list \<Rightarrow> error + NpmScript list list" where
  "ownBatches filePath packageJSON =
     (case map_of packageJSON ''scripts'' of
        Some (AObj scriptsMap) \<Rightarrow>
          (case scriptsLoop (packageNameOf packageJSON) filePath scriptsMap of
             Inl e \<Rightarrow> Inl e
           | Inr scripts \<Rightarrow> Inr [scripts])
      | _ \<Rightarrow> Inr [])"

text \<open>The strings of a \<^verbatim>\<open>packages\<close> array; other elements are skipped.\<close>

fun packageStrings :: "any list \<Rightarrow> string list" where
  "packageStrings [] = []"
| "packageStrings (AStr pkgStr # rest) = pkgStr # packageStrings rest"
| "packageStrings (_ # rest) = packageStrings rest"

text \<open>The type switch on \<^verbatim>\<open>packageJSON["workspaces"]\<close>.\<close>

definition workspacePatterns :: "(string \<times> any) list \<Rightarrow> string list" where
  "workspacePatterns packageJSON =
     (case map_of packageJSON ''workspaces'' of
        Some (AStrSlice patterns) \<Rightarrow> patterns
      | Some (AObj workspacesObj) \<Rightarrow>
          (case map_of workspacesObj ''packages'' of
             Some (AArr packagesArray) \<Rightarrow> packageStrings packagesArray
           | _ \<Rightarrow> [])
      | _ \<Rightarrow> [])"

text \<open>
  The loops over the patterns and their matches. The state is \<^verbatim>\<open>knownWorkspaces\<close>
  (a set of manifest paths, as a list) and the manifest paths for which a task has been
  started, in the order of the \<^verbatim>\<open>go\<close> statements.
\<close>

definition visitWorkspace :: "fsys \<Rightarrow> string \<Rightarrow> string list \<times> string list
    \<Rightarrow> string list \<times> string list" where
  "visitWorkspace os workspacePackageJSONPath st =
     (case st of (knownWorkspaces, started) \<Rightarrow>
        if workspacePackageJSONPath \<in> set knownWorkspaces then (knownWorkspaces, started)
        else if stat os workspacePackageJSONPath
        then (workspacePackageJSONPath # knownWorkspaces, started @ [workspacePackageJSONPath])
        else (workspacePackageJSONPath # knownWorkspaces, started))"

fun visitMatches :: "fsys \<Rightarrow> string list \<Rightarrow> string list \<times> string list
    \<Rightarrow> string list \<times> string list" where
  "visitMatches os [] st = st"
| "visitMatches os (m # ms) st =
     visitMatches os ms (visitWorkspace os (joinPath os m ''package.json'') st)"

fun visitPatterns :: "fsys \<Rightarrow> string \<Rightarrow> string list \<Rightarrow> string list \<times> string list
    \<Rightarrow> string list \<times> string list" where
  "visitPatterns os filePath [] st = st"
| "visitPatterns os filePath (workspacePattern # rest) st =
     (let isGlob = containsAny workspacePattern ''*?['';
          workspacePath = joinPath os (dirOf os filePath) workspacePattern
      in if isGlob
         then (case glob os workspacePath of
                 None \<Rightarrow> visitPatterns os filePath rest st
               | Some matches \<Rightarrow>
                   visitPatterns os filePath rest (visitMatches os matches st))
         else visitPatterns os filePath rest
                (visitWorkspace os (joinPath os workspacePath ''package.json'') st))"

definition workspaceMembers :: "fsys \<Rightarrow> string \<Rightarrow> string list \<Rightarrow> string list" where
  "workspaceMembers os filePath patterns = snd (visitPatterns os filePath patterns ([], []))"

text \<open>
  The members named by a sibling \<^verbatim>\<open>pnpm-workspace.yaml\<close>: every match whose manifest
  exists, the current manifest apart. An error of \<^verbatim>\<open>locatePnpmWorkspaces\<close> gives none.
\<close>

fun pnpmLoop :: "fsys \<Rightarrow> string \<Rightarrow> string list \<Rightarrow> string list" where
  "pnpmLoop os filePath [] = []"
| "pnpmLoop os filePath (m # ms) =
     (let workspacePackageJSONPath = joinPath os m ''package.json'' in
      if workspacePackageJSONPath = filePath then pnpmLoop os filePath ms
      else if stat os workspacePackageJSONPath
      then workspacePackageJSONPath # pnpmLoop os filePath ms
      else pnpmLoop os filePath ms)"

definition pnpmMembers :: "fsys \<Rightarrow> string \<Rightarrow> string list" where
  "pnpmMembers os filePath =
     (let dirname = dirOf os filePath;
          pnpmWorkspacePath = joinPath os dirname ''pnpm-workspace.yaml''
      in if stat os pnpmWorkspacePath
         then (case locatePnpmWorkspaces os dirname of
                 Inl e \<Rightarrow> []
               | Inr result \<Rightarrow> pnpmLoop os filePath result)
         else [])"

text \<open>
  The batches of a list of tasks: a panic in one of them ends the process, otherwise
  all their batches reach the channel.
\<close>

fun gather :: "(error + 'a list) list \<Rightarrow> error + 'a list" where
  "gather [] = Inr []"
| "gather (Inl e # rs) = Inl e"
| "gather (Inr bs # rs) = (case gather rs of Inl e \<Rightarrow> Inl e | Inr cs \<Rightarrow> Inr (bs @ cs))"

text \<open>
  One extraction task and the tasks it starts: the batches sent on \<^verbatim>\<open>scriptsChan\<close>.
  Every task started from here is a leaf, so the nesting of tasks is two deep.
\<close>

function extractScriptsFromPackageJSON :: "fsys \<Rightarrow> string \<Rightarrow> bool \<Rightarrow> error + NpmScript list list"
  where
  "extractScriptsFromPackageJSON os filePath isLeaf =
     (case readJSON os filePath of
        None \<Rightarrow> Inr []
      | Some packageJSON \<Rightarrow>
          (case ownBatches filePath packageJSON of
             Inl e \<Rightarrow> Inl e
           | Inr sent \<Rightarrow>
               if isLeaf then Inr sent
               else (case gather (map (\<lambda>p. extractScriptsFromPackageJSON os p True)
                                   (workspaceMembers os filePath (workspacePatterns packageJSON)
                                    @ pnpmMembers os filePath)) of
                       Inl e \<Rightarrow> Inl e
                     | Inr bs \<Rightarrow> Inr (sent @ bs))))"
  by pat_completeness auto
termination
  by (relation "measure (\<lambda>(os, filePath, isLeaf). if isLeaf then 0 else 1)") auto

text \<open>
  The catalog of a run over the located manifests: the batches in the order in which
  this model starts the tasks. The order in which they really arrive is left open by
  the scheduler.
\<close>

definition allBatches :: "fsys \<Rightarrow> string list \<Rightarrow> error + NpmScript list list" where
  "allBatches os filepaths =
     gather (map (\<lambda>path. extractScriptsFromPackageJSON os path False) filepaths)"

definition extractScriptsFromPackageJSONsConcurrent :: "fsys \<Rightarrow> string list
    \<Rightarrow> error + NpmScript list" where
  "extractScriptsFromPackageJSONsConcurrent os filepaths =
     (case allBatches os filepaths of Inl e \<Rightarrow> Inl e | Inr bs \<Rightarrow> Inr (concat bs))"

declare extractScriptsFromPackageJSON.simps [simp del]

section \<open>Package-manager inference: inferPackageManager\<close>

text \<open>
  \<^verbatim>\<open>knownLockFiles\<close> is a Go map, ranged over in an order Go leaves open; the model
  tries the lock files in the order of the source text.
\<close>

definition knownLockFiles :: "(string \<times> string) list" where
  "knownLockFiles =
     [(''package-lock.json'', ''npm''), (''yarn.lock'', ''yarn''), (''pnpm-lock.yaml'', ''pnpm''),
      (''bun.lock'', ''bun''), (''bun.lockb'', ''bun'')]"

fun findLockFile :: "fsys \<Rightarrow> string \<Rightarrow> (string \<times> string) list \<Rightarrow> string option" where
  "findLockFile os dir [] = None"
| "findLockFile os dir ((lockFile, pkgManager) # rest) =
     (if stat os (joinPath os dir lockFile) then Some pkgManager
      else findLockFile os dir rest)"

text \<open>
  The loop \<^verbatim>\<open>for dir != "."\<close>. Nothing bounds the number of its rounds, so it is a
  partial function: \<open>None\<close> is the loop that never ends.
\<close>

partial_function (option) inferLoop :: "fsys \<Rightarrow> string \<Rightarrow> string option" where
  "inferLoop os dir =
     (if dir \<noteq> ''.''
      then (case findLockFile os dir knownLockFiles of
              Some pkgManager \<Rightarrow> Some pkgManager
            | None \<Rightarrow> inferLoop os (dirOf os dir))
      else Some ''npm'')"

definition inferPackageManager :: "fsys \<Rightarrow> string \<Rightarrow> string option" where
  "inferPackageManager os filePath = inferLoop os (dirOf os filePath)"

section \<open>The locator: findPackageJSON\<close>

text \<open>
  A directory tree: a file, or a directory with its entries (name and node). The flag of
  a directory says whether \<^verbatim>\<open>os.Open\<close> and \<^verbatim>\<open>Readdir\<close> succeed on it. Paths are the
  lists of names below the search root; \<^verbatim>\<open>filepath.Join(path, name)\<close> appends a name.
\<close>

datatype node = File | Dir bool "(string \<times> node) list"

definition ignoredDirs :: "string \<Rightarrow> bool" where
  "ignoredDirs name = (name \<in> set
     [''.circleci'', ''.github'', ''.git'', ''.hg'', ''.svn'', ''.idea'', ''.vscode'',
      ''node_modules'', ''__tests__'', ''__test__'', ''__specs__'', ''__spec__'',
      ''__mocks__'', ''__mock__'', ''__snapshots__'', ''__fixtures__''])"

text \<open>\<^verbatim>\<open>os.Stat\<close> of a name inside a node: the node is a directory with such an entry.\<close>

fun statIn :: "node \<Rightarrow> string \<Rightarrow> bool" where
  "statIn File name = False"
| "statIn (Dir readable entries) name = (name \<in> fst ` set entries)"

fun isDir :: "node \<Rightarrow> bool" where
  "isDir File = False"
| "isDir (Dir readable entries) = True"

text \<open>
  The paths sent on the channel by one walk task and the tasks it starts, in the order
  in which this model visits the entries. Opening a file succeeds but \<^verbatim>\<open>Readdir\<close>
  fails on it, so a file gives nothing.
\<close>

fun findPackageJSON :: "string list \<Rightarrow> node \<Rightarrow> string list list" where
  "findPackageJSON path File = []"
| "findPackageJSON path (Dir readable entries) =
     (if \<not> readable then []
      else if statIn (Dir readable entries) ''package.json'' then [path @ [''package.json'']]
      else concat (map (\<lambda>(name, entry).
             if isDir entry \<and> \<not> ignoredDirs name
             then (if statIn entry ''package.json''
                   then [(path @ [name]) @ [''package.json'']]
                   else findPackageJSON (path @ [name]) entry)
             else []) entries))"

text \<open>
  The walk of the first iteration of the program (\<^verbatim>\<open>main.go\<close>): it descends into every
  directory but \<^verbatim>\<open>node_modules\<close> and \<^verbatim>\<open>.git\<close>, and sends every other entry named
  \<^verbatim>\<open>package.json\<close>.
\<close>

fun findPackageJSON_v1 :: "string list \<Rightarrow> node \<Rightarrow> string list list" where
  "findPackageJSON_v1 path File = []"
| "findPackageJSON_v1 path (Dir readable entries) =
     (if \<not> readable then []
      else concat (map (\<lambda>(name, entry).
             if isDir entry \<and> name \<noteq> ''node_modules'' \<and> name \<noteq> ''.git''
             then findPackageJSON_v1 (path @ [name]) entry
             else if name = ''package.json'' then [path @ [name]] else []) entries))"

section \<open>Path functions on clean paths\<close>

text \<open>
  \<^verbatim>\<open>filepath.Join\<close> and \<^verbatim>\<open>filepath.Dir\<close> on the paths of the examples below: slash-separated,
  without empty, \<^verbatim>\<open>.\<close> or \<^verbatim>\<open>..\<close> elements, where joining is concatenation and the
  directory of a path is what precedes its last slash (\<^verbatim>\<open>.\<close> for a single relative name,
  \<^verbatim>\<open>/\<close> for the root and for a name directly under it).
\<close>

definition cleanJoin :: "string \<Rightarrow> string \<Rightarrow> string" where
  "cleanJoin d p = (if d = ''.'' then p else if p = ''.'' then d
                    else if d = ''/'' then d @ p else d @ ''/'' @ p)"

definition cleanDir :: "string \<Rightarrow> string" where
  "cleanDir p =
     (let d = rev (dropWhile (\<lambda>c. c \<noteq> CHR ''/'') (rev p)) in
      if d = [] then ''.'' else if butlast d = [] then ''/'' else butlast d)"

section \<open>Package roots of a directory tree\<close>

text \<open>
  The node at a path below the root of a tree; a directory that holds a manifest (an
  entry \<^verbatim>\<open>package.json\<close>, whatever its kind, since the locator asks \<^verbatim>\<open>os.Stat\<close> only);
  and a package root: a directory that holds a manifest, reached through directory names
  that are not ignored, none of whose proper ancestors holds a manifest.
\<close>

fun lookup :: "node \<Rightarrow> string list \<Rightarrow> node option" where
  "lookup n [] = Some n"
| "lookup File (name # names) = None"
| "lookup (Dir readable entries) (name # names) =
     (case map_of entries name of None \<Rightarrow> None | Some entry \<Rightarrow> lookup entry names)"

definition holdsManifest :: "node \<Rightarrow> string list \<Rightarrow> bool" where
  "holdsManifest tree d =
     (case lookup tree d of None \<Rightarrow> False | Some n \<Rightarrow> statIn n ''package.json'')"

definition packageRoot :: "node \<Rightarrow> string list \<Rightarrow> bool" where
  "packageRoot tree d =
     (holdsManifest tree d \<and> (\<forall>name \<in> set d. \<not> ignoredDirs name) \<and>
      (\<forall>d'. strict_prefix d' d \<longrightarrow> \<not> holdsManifest tree d'))"

text \<open>
  A tree as a file system presents it to a user who may read it: the names in a
  directory are different, and every directory can be opened and listed.
\<close>

fun wellFormed :: "node \<Rightarrow> bool" where
  "wellFormed File = True"
| "wellFormed (Dir readable entries) =
     (readable \<and> distinct (map fst entries) \<and> (\<forall>(name, entry) \<in> set entries. wellFormed entry))"

section \<open>Collecting from the channels: a discovery run\<close>

text \<open>
  \<^verbatim>\<open>findProjectRootPackageJSONPathsConcurrent\<close> appends the paths in the order in which
  the walk tasks deliver them: any arrangement of the paths sent. The strings are built
  from the search root by \<^verbatim>\<open>filepath.Join\<close>, one name at a time.
\<close>

definition pathString :: "fsys \<Rightarrow> string \<Rightarrow> string list \<Rightarrow> string" where
  "pathString os rootPath names = foldl (joinPath os) rootPath names"

definition locatedBy :: "fsys \<Rightarrow> string \<Rightarrow> node \<Rightarrow> string list \<Rightarrow> bool" where
  "locatedBy os rootPath tree filepaths =
     (mset filepaths = mset (map (pathString os rootPath) (findPackageJSON [] tree)))"

text \<open>
  The batches reach the consumer in any order, and the entries of a batch are in the
  order in which Go ranged over the \<^verbatim>\<open>scripts\<close> map: what is received is a rearrangement
  of the batches sent, each batch rearranged.
\<close>

definition arrival :: "'a list list \<Rightarrow> 'a list list \<Rightarrow> bool" where
  "arrival sent received = (mset (map mset received) = mset (map mset sent))"

text \<open>
  The part of \<^verbatim>\<open>main\<close> before the selection: no manifest found (exit code 1), a panic
  in an extraction task, or the catalog.
\<close>

datatype 'a outcome = NoPackageJSON | Crashed | Catalog 'a

definition discovery :: "fsys \<Rightarrow> string \<Rightarrow> node \<Rightarrow> NpmScript list outcome \<Rightarrow> bool" where
  "discovery os searchPath tree out =
     (\<exists>filepaths. locatedBy os searchPath tree filepaths \<and>
        (if filepaths = [] then out = NoPackageJSON
         else (case allBatches os filepaths of
                 Inl e \<Rightarrow> out = Crashed
               | Inr sent \<Rightarrow> (\<exists>received. arrival sent received \<and> out = Catalog (concat received)))))"

text \<open>The batches a task has sent; a task that panicked is never asked.\<close>

fun batchesOf :: "error + 'a list \<Rightarrow> 'a list" where
  "batchesOf (Inl e) = []"
| "batchesOf (Inr bs) = bs"

section \<open>Invariant of the in-manifest expansion\<close>

text \<open>Every started manifest is recorded as known, and none is started twice.\<close>

definition visitInv :: "string list \<times> string list \<Rightarrow> bool" where
  "visitInv st = (set (snd st) \<subseteq> set (fst st) \<and> distinct (snd st))"

section \<open>The resolved member set, in the words of the specification\<close>

text \<open>
  A pattern of the workspace file is an exclusion when it starts with \<^verbatim>\<open>!\<close> (the code
  looks at the pattern after trimming the white space around it); the prefix is
  stripped, and every pattern is resolved against the directory of the workspace file.
  The matches of a pattern are the paths \<^verbatim>\<open>filepath.Glob\<close> returns for it.
\<close>

definition isExclusion :: "string \<Rightarrow> bool" where
  "isExclusion pattern = hasPrefix (trimSpace pattern) ''!''"

definition includePatternsOf :: "fsys \<Rightarrow> string \<Rightarrow> string list \<Rightarrow> string list" where
  "includePatternsOf os root packages =
     map (\<lambda>p. joinPath os root (trimSpace p)) (filter (\<lambda>p. \<not> isExclusion p) packages)"

definition excludePatternsOf :: "fsys \<Rightarrow> string \<Rightarrow> string list \<Rightarrow> string list" where
  "excludePatternsOf os root packages =
     map (\<lambda>p. joinPath os root (trimPrefix (trimSpace p) ''!'')) (filter isExclusion packages)"


section \<open>Example file systems\<close>

text \<open>
  A manifest whose \<^verbatim>\<open>scripts\<close> object has a number where a command is expected:
  \<^verbatim>\<open>{"name": "app", "scripts": {"build": 1}}\<close>.
\<close>

definition osBadScript :: fsys where
  "osBadScript =
     \<lparr>readJSON = map_of
        [(''package.json'', [(''name'', AStr ''app''), (''scripts'', AObj [(''build'', ANum 1)])])],
      readYAML = (\<lambda>p. None),
      stat = (\<lambda>p. p \<in> set [''package.json'']),
      glob = (\<lambda>p. Some []),
      joinPath = cleanJoin, dirOf = cleanDir\<rparr>"

text \<open>
  The end-to-end tree of the specification: a root manifest without scripts that declares
  \<^verbatim>\<open>"workspaces": ["pkgs/*"]\<close>, and the members \<^verbatim>\<open>pkgs/foo\<close> (\<^verbatim>\<open>build: tsc\<close>) and
  \<^verbatim>\<open>pkgs/bar\<close> (\<^verbatim>\<open>test: jest\<close>). The decoder delivers the array as \<^verbatim>\<open>[]any\<close>.
\<close>

definition memberManifests :: "(string \<times> (string \<times> any) list) list" where
  "memberManifests =
     [(''pkgs/foo/package.json'',
         [(''name'', AStr ''foo''), (''scripts'', AObj [(''build'', AStr ''tsc'')])]),
      (''pkgs/bar/package.json'',
         [(''name'', AStr ''bar''), (''scripts'', AObj [(''test'', AStr ''jest'')])])]"

definition osArrayForm :: fsys where
  "osArrayForm =
     \<lparr>readJSON = map_of
        ((''package.json'', [(''name'', AStr ''root''), (''workspaces'', AArr [AStr ''pkgs/*''])])
         # memberManifests),
      readYAML = (\<lambda>p. None),
      stat = (\<lambda>p. p \<in> set [''package.json'', ''pkgs'', ''pkgs/foo'', ''pkgs/bar'',
                             ''pkgs/foo/package.json'', ''pkgs/bar/package.json'']),
      glob = map_of [(''pkgs/*'', [''pkgs/bar'', ''pkgs/foo''])],
      joinPath = cleanJoin, dirOf = cleanDir\<rparr>"

text \<open>The same tree with the object form \<^verbatim>\<open>"workspaces": {"packages": ["pkgs/*"]}\<close>.\<close>

definition osObjectForm :: fsys where
  "osObjectForm = osArrayForm
     \<lparr>readJSON := map_of
        ((''package.json'',
            [(''name'', AStr ''root''),
             (''workspaces'', AObj [(''packages'', AArr [AStr ''pkgs/*''])])])
         # memberManifests)\<rparr>"

text \<open>
  A root manifest that names its own directory as a workspace:
  \<^verbatim>\<open>{"name": "root", "scripts": {"build": "tsc"}, "workspaces": {"packages": ["."]}}\<close>.
\<close>

definition osSelfReference :: fsys where
  "osSelfReference =
     \<lparr>readJSON = map_of
        [(''package.json'',
            [(''name'', AStr ''root''), (''scripts'', AObj [(''build'', AStr ''tsc'')]),
             (''workspaces'', AObj [(''packages'', AArr [AStr ''.''])])])],
      readYAML = (\<lambda>p. None),
      stat = (\<lambda>p. p \<in> set [''.'', ''package.json'']),
      glob = (\<lambda>p. Some []),
      joinPath = cleanJoin, dirOf = cleanDir\<rparr>"

text \<open>
  A root that declares the same members twice, in its manifest
  (\<^verbatim>\<open>"workspaces": {"packages": ["packages/*"]}\<close>) and in a sibling
  \<^verbatim>\<open>pnpm-workspace.yaml\<close> (\<^verbatim>\<open>packages: ["packages/*"]\<close>).
\<close>

definition osBothDeclarations :: fsys where
  "osBothDeclarations =
     \<lparr>readJSON = map_of
        [(''package.json'',
            [(''name'', AStr ''root''),
             (''workspaces'', AObj [(''packages'', AArr [AStr ''packages/*''])])]),
         (''packages/a/package.json'',
            [(''name'', AStr ''a''), (''scripts'', AObj [(''build'', AStr ''tsc'')])])],
      readYAML = map_of [(''./pnpm-workspace.yaml'', [''packages/*''])],
      stat = (\<lambda>p. p \<in> set [''package.json'', ''pnpm-workspace.yaml'', ''packages'',
                             ''packages/a'', ''packages/a/package.json'']),
      glob = map_of [(''packages/*'', [''packages/a''])],
      joinPath = cleanJoin, dirOf = cleanDir\<rparr>"

text \<open>
  Two manifests found by the walk, \<^verbatim>\<open>a/package.json\<close> and \<^verbatim>\<open>b/package.json\<close>, where the
  first declares the second as a member: \<^verbatim>\<open>"workspaces": {"packages": ["../b"]}\<close>.
  \<^verbatim>\<open>filepath.Join("a", "../b")\<close> is \<^verbatim>\<open>b\<close>.
\<close>

definition osSibling :: fsys where
  "osSibling =
     \<lparr>readJSON = map_of
        [(''a/package.json'',
            [(''name'', AStr ''a''),
             (''workspaces'', AObj [(''packages'', AArr [AStr ''../b''])])]),
         (''b/package.json'',
            [(''name'', AStr ''b''), (''scripts'', AObj [(''test'', AStr ''jest'')])])],
      readYAML = (\<lambda>p. None),
      stat = (\<lambda>p. p \<in> set [''a'', ''b'', ''a/package.json'', ''b/package.json'']),
      glob = (\<lambda>p. Some []),
      joinPath = (\<lambda>d p. if d = ''a'' \<and> p = ''../b'' then ''b'' else cleanJoin d p),
      dirOf = cleanDir\<rparr>"

text \<open>
  A workspace file with a valid and a malformed pattern, \<^verbatim>\<open>packages: ["apps/*", "libs/["]\<close>,
  next to a root manifest without a \<^verbatim>\<open>workspaces\<close> field.
\<close>

definition osBadPattern :: fsys where
  "osBadPattern =
     \<lparr>readJSON = map_of
        [(''package.json'', [(''name'', AStr ''root'')]),
         (''apps/web/package.json'',
            [(''name'', AStr ''web''), (''scripts'', AObj [(''dev'', AStr ''vite'')])])],
      readYAML = map_of [(''./pnpm-workspace.yaml'', [''apps/*'', ''libs/[''])],
      stat = (\<lambda>p. p \<in> set [''package.json'', ''pnpm-workspace.yaml'', ''apps'', ''apps/web'',
                             ''apps/web/package.json'']),
      glob = map_of [(''apps/*'', [''apps/web''])],
      joinPath = cleanJoin, dirOf = cleanDir\<rparr>"


text \<open>The directory tree of the object-form example, below the search root \<^verbatim>\<open>.\<close>.\<close>

definition treeObjectForm :: node where
  "treeObjectForm =
     Dir True [(''package.json'', File),
               (''pkgs'', Dir True [(''foo'', Dir True [(''package.json'', File)]),
                                    (''bar'', Dir True [(''package.json'', File)])])]"

text \<open>
  An absolute search path \<^verbatim>\<open>/proj\<close> and no lock file anywhere above the manifest
  \<^verbatim>\<open>/proj/package.json\<close>.
\<close>

definition osNoLockFile :: fsys where
  "osNoLockFile =
     \<lparr>readJSON = (\<lambda>p. None),
      readYAML = (\<lambda>p. None),
      stat = (\<lambda>p. p \<in> set [''/'', ''/proj'', ''/proj/package.json'']),
      glob = (\<lambda>p. Some []),
      joinPath = cleanJoin, dirOf = cleanDir\<rparr>"

text \<open>A package root with a nested package, \<^verbatim>\<open>package.json\<close> and \<^verbatim>\<open>sub/package.json\<close>.\<close>

definition treeNested :: node where
  "treeNested =
     Dir True [(''package.json'', File), (''sub'', Dir True [(''package.json'', File)])]"

text \<open>
  A search root without a manifest: a package \<^verbatim>\<open>a\<close>, a package \<^verbatim>\<open>b/c\<close> with a nested
  package \<^verbatim>\<open>b/c/d\<close>, and a dependency directory.
\<close>

definition treeMixed :: node where
  "treeMixed =
     Dir True
       [(''a'', Dir True [(''package.json'', File), (''src'', Dir True [])]),
        (''node_modules'', Dir True [(''dep'', Dir True [(''package.json'', File)])]),
        (''b'', Dir True
           [(''c'', Dir True [(''package.json'', File),
                              (''d'', Dir True [(''package.json'', File)])])]),
        (''README.md'', File)]"

section \<open>Properties\<close>

lemmas run_defs = extractScriptsFromPackageJSONsConcurrent_def allBatches_def
  extractScriptsFromPackageJSON.simps ownBatches_def packageNameOf_def workspacePatterns_def
  workspaceMembers_def pnpmMembers_def locatePnpmWorkspaces_def visitWorkspace_def
  containsAny_def cleanJoin_def cleanDir_def trimSpace_def isSpace_def hasPrefix_def
  trimPrefix_def memberManifests_def

subsection \<open>The in-manifest expansion\<close>

lemma visitWorkspace_inv: "visitInv st \<Longrightarrow> visitInv (visitWorkspace os p st)"
  by (cases st) (auto simp: visitInv_def visitWorkspace_def)

lemma visitMatches_inv: "visitInv st \<Longrightarrow> visitInv (visitMatches os ms st)"
  by (induction ms arbitrary: st) (simp_all add: visitWorkspace_inv)

lemma visitPatterns_inv: "visitInv st \<Longrightarrow> visitInv (visitPatterns os filePath ps st)"
  by (induction ps arbitrary: st)
     (auto simp: Let_def visitWorkspace_inv visitMatches_inv split: option.splits)

lemma visitPatterns_append:
  "visitPatterns os filePath (ps @ qs) st =
     visitPatterns os filePath qs (visitPatterns os filePath ps st)"
  by (induction ps arbitrary: st) (simp_all add: Let_def split: option.splits)

subsection \<open>The workspace file\<close>

lemma separatePatterns_eq:
  "separatePatterns os root packages incs excs =
     (incs @ includePatternsOf os root packages, excs @ excludePatternsOf os root packages)"
  by (induction packages arbitrary: incs excs)
     (simp_all add: includePatternsOf_def excludePatternsOf_def isExclusion_def Let_def)







lemma processIncludes_bad:
  "\<exists>p \<in> set ps. glob os p = None \<Longrightarrow> \<exists>e. processIncludes os ps S = Inl e"
  by (induction ps arbitrary: S) (auto split: option.splits)

lemma processExcludes_bad:
  "\<exists>p \<in> set ps. glob os p = None \<Longrightarrow> \<exists>e. processExcludes os ps S = Inl e"
  by (induction ps arbitrary: S) (auto split: option.splits)

lemma locatePnpmWorkspaces_bad:
  assumes yaml: "readYAML os (root @ ''/pnpm-workspace.yaml'') = Some packages"
    and bad: "\<exists>p \<in> set (includePatternsOf os root packages)
                    \<union> set (excludePatternsOf os root packages). glob os p = None"
  shows "\<exists>e. locatePnpmWorkspaces os root = Inl e"
proof (cases "\<exists>p \<in> set (includePatternsOf os root packages). glob os p = None")
  case True
  from processIncludes_bad [OF this, of "[]"] show ?thesis
    using yaml by (auto simp: locatePnpmWorkspaces_def separatePatterns_eq)
next
  case False
  with bad have "\<exists>p \<in> set (excludePatternsOf os root packages). glob os p = None" by auto
  from processExcludes_bad [OF this] show ?thesis
    using yaml by (auto simp: locatePnpmWorkspaces_def separatePatterns_eq split: sum.splits)
qed

subsection \<open>C1: a manifest reached on several routes\<close>

text \<open>
  C1, counterexample. The extractor keeps no set of visited manifests across tasks.
  With the members declared both in the manifest and in the workspace file, the manifest
  \<^verbatim>\<open>packages/a/package.json\<close> is extracted by two tasks and its script is in the catalog
  twice; and a manifest that the walk finds and that another found manifest declares as
  a member is extracted twice as well.
\<close>

theorem manifest_extracted_twice:
  "extractScriptsFromPackageJSONsConcurrent osBothDeclarations [''package.json''] =
     Inr [\<lparr>PackageName = ''a'', ScriptName = ''build'', Command = ''tsc'',
            AbsolutePath = ''packages/a/package.json''\<rparr>,
          \<lparr>PackageName = ''a'', ScriptName = ''build'', Command = ''tsc'',
            AbsolutePath = ''packages/a/package.json''\<rparr>]
   \<and> extractScriptsFromPackageJSONsConcurrent osSibling [''a/package.json'', ''b/package.json''] =
     Inr [\<lparr>PackageName = ''b'', ScriptName = ''test'', Command = ''jest'',
            AbsolutePath = ''b/package.json''\<rparr>,
          \<lparr>PackageName = ''b'', ScriptName = ''test'', Command = ''jest'',
            AbsolutePath = ''b/package.json''\<rparr>]"
  by (simp add: osBothDeclarations_def osSibling_def run_defs)

text \<open>
  C1, as amended. Within the expansion of one manifest's own \<^verbatim>\<open>workspaces\<close>
  declaration, the set \<^verbatim>\<open>knownWorkspaces\<close> of that task makes every member manifest path
  start at most one extraction task, whatever the patterns and however they overlap.
\<close>

theorem workspace_members_started_once:
  "distinct (workspaceMembers os filePath patterns)"
  using visitPatterns_inv [of "([], [])" os filePath patterns]
  by (simp add: visitInv_def workspaceMembers_def)

text \<open>
  C1, an instance: the patterns \<^verbatim>\<open>pkgs/*\<close>, \<^verbatim>\<open>pkgs/foo\<close>, \<^verbatim>\<open>pkgs/*\<close> overlap, and each
  of the two member manifests is started once.
\<close>

theorem workspace_members_started_once_witness:
  "workspaceMembers osObjectForm ''package.json'' [''pkgs/*'', ''pkgs/foo'', ''pkgs/*''] =
     [''pkgs/bar/package.json'', ''pkgs/foo/package.json'']
   \<and> distinct (workspaceMembers osObjectForm ''package.json'' [''pkgs/*'', ''pkgs/foo'', ''pkgs/*''])"
  using workspace_members_started_once [of osObjectForm "''package.json''" "[''pkgs/*'', ''pkgs/foo'', ''pkgs/*'']"]
  by (simp add: osObjectForm_def osArrayForm_def run_defs)

subsection \<open>C3: the two shapes of the workspaces declaration\<close>

lemma workspacePatterns_array_form:
  "map_of packageJSON ''workspaces'' = Some (AArr patterns) \<Longrightarrow>
   workspacePatterns packageJSON = []"
  by (simp add: workspacePatterns_def)

lemma packageStrings_strings: "packageStrings (map AStr patterns) = patterns"
  by (induction patterns) simp_all

lemma workspacePatterns_object_form:
  "map_of packageJSON ''workspaces'' = Some (AObj workspacesObj) \<Longrightarrow>
   map_of workspacesObj ''packages'' = Some (AArr (map AStr patterns)) \<Longrightarrow>
   workspacePatterns packageJSON = patterns"
  by (simp add: workspacePatterns_def packageStrings_strings)

text \<open>
  C3, at the failing input. The type switch has the cases \<^verbatim>\<open>[]string\<close> and
  \<^verbatim>\<open>map[string]any\<close>; a decoded JSON array is a \<^verbatim>\<open>[]any\<close> and matches neither. On the
  tree with \<^verbatim>\<open>"workspaces": ["pkgs/*"]\<close> the catalog is empty, although both members
  exist and declare scripts; the object form over the same tree yields both scripts.
\<close>

theorem array_form_workspaces_ignored:
  "extractScriptsFromPackageJSONsConcurrent osArrayForm [''package.json''] = Inr []
   \<and> extractScriptsFromPackageJSONsConcurrent osObjectForm [''package.json''] =
       Inr [\<lparr>PackageName = ''bar'', ScriptName = ''test'', Command = ''jest'',
              AbsolutePath = ''pkgs/bar/package.json''\<rparr>,
            \<lparr>PackageName = ''foo'', ScriptName = ''build'', Command = ''tsc'',
              AbsolutePath = ''pkgs/foo/package.json''\<rparr>]"
  by (simp add: osObjectForm_def osArrayForm_def run_defs)

subsection \<open>C4: a workspace pattern that names the root itself\<close>

text \<open>
  C4, at the failing input. The extractor always returns (its recursion is two deep,
  see the termination proof of \<open>extractScriptsFromPackageJSON\<close>), but the in-manifest
  expansion has no guard for the current manifest: with the pattern \<^verbatim>\<open>.\<close> the root
  manifest is extracted again as its own member, and its script is in the catalog twice.
\<close>

theorem self_reference_duplicates_root:
  "extractScriptsFromPackageJSONsConcurrent osSelfReference [''package.json''] =
     Inr [\<lparr>PackageName = ''root'', ScriptName = ''build'', Command = ''tsc'',
            AbsolutePath = ''package.json''\<rparr>,
          \<lparr>PackageName = ''root'', ScriptName = ''build'', Command = ''tsc'',
            AbsolutePath = ''package.json''\<rparr>]"
  by (simp add: osSelfReference_def run_defs)

subsection \<open>C5: a script whose command is not a string\<close>

lemma scriptsLoop_panics:
  "(name, command) \<in> set scriptsMap \<Longrightarrow> \<forall>c. command \<noteq> AStr c \<Longrightarrow>
   scriptsLoop packageName filePath scriptsMap = Inl Panic"
proof (induction scriptsMap)
  case Nil
  then show ?case by simp
next
  case (Cons a scriptsMap)
  obtain n v where a: "a = (n, v)" by (cases a)
  show ?case
  proof (cases "\<exists>c. v = AStr c")
    case True
    with Cons a have "scriptsLoop packageName filePath scriptsMap = Inl Panic" by auto
    with True a show ?thesis by auto
  next
    case False
    with a show ?thesis by (cases v) simp_all
  qed
qed

text \<open>
  C5, at the failing input. \<^verbatim>\<open>command.(string)\<close> is not the checked form of the type
  assertion: on \<^verbatim>\<open>{"scripts": {"build": 1}}\<close> it panics and the run ends without a
  catalog.
\<close>

theorem nonstring_command_panics:
  "extractScriptsFromPackageJSONsConcurrent osBadScript [''package.json''] = Inl Panic"
  by (simp add: osBadScript_def run_defs)

subsection \<open>C7: a malformed pattern\<close>

text \<open>
  C7, counterexample. In a workspace file the malformed pattern \<^verbatim>\<open>libs/[\<close> makes
  \<^verbatim>\<open>locatePnpmWorkspaces\<close> return an error, so the valid pattern \<^verbatim>\<open>apps/*\<close> of the same
  file contributes nothing either: the manifest of its match \<^verbatim>\<open>apps/web\<close> exists, and
  no task is started for it.
\<close>

theorem bad_pattern_aborts_workspace_file:
  "glob osBadPattern ''libs/['' = None
   \<and> glob osBadPattern ''apps/*'' = Some [''apps/web'']
   \<and> stat osBadPattern ''apps/web/package.json''
   \<and> locatePnpmWorkspaces osBadPattern ''.'' = Inl (IncludePatternError ''libs/['')
   \<and> pnpmMembers osBadPattern ''package.json'' = []
   \<and> extractScriptsFromPackageJSONsConcurrent osBadPattern [''package.json''] = Inr []"
  by (simp add: osBadPattern_def run_defs)

text \<open>
  C7, as amended. In the \<^verbatim>\<open>workspaces\<close> list of a manifest, a glob pattern that
  \<^verbatim>\<open>filepath.Glob\<close> rejects is skipped and the other patterns of the list give what they
  give without it. In a workspace file, a rejected pattern (inclusion or exclusion) makes
  the whole resolution fail, and the file contributes no member.
\<close>

theorem bad_pattern_handling:
  "(containsAny p ''*?['' \<and> glob os (joinPath os (dirOf os filePath) p) = None \<longrightarrow>
      workspaceMembers os filePath (ps @ p # qs) = workspaceMembers os filePath (ps @ qs))
   \<and> (readYAML os (dirOf os filePath @ ''/pnpm-workspace.yaml'') = Some packages
      \<and> (\<exists>q \<in> set (includePatternsOf os (dirOf os filePath) packages)
                \<union> set (excludePatternsOf os (dirOf os filePath) packages). glob os q = None) \<longrightarrow>
      pnpmMembers os filePath = [])"
proof (intro conjI impI)
  assume "containsAny p ''*?['' \<and> glob os (joinPath os (dirOf os filePath) p) = None"
  then show "workspaceMembers os filePath (ps @ p # qs) = workspaceMembers os filePath (ps @ qs)"
    by (simp add: workspaceMembers_def visitPatterns_append Let_def)
next
  assume a: "readYAML os (dirOf os filePath @ ''/pnpm-workspace.yaml'') = Some packages
      \<and> (\<exists>q \<in> set (includePatternsOf os (dirOf os filePath) packages)
                \<union> set (excludePatternsOf os (dirOf os filePath) packages). glob os q = None)"
  then obtain e where "locatePnpmWorkspaces os (dirOf os filePath) = Inl e"
    using locatePnpmWorkspaces_bad by blast
  then show "pnpmMembers os filePath = []"
    by (simp add: pnpmMembers_def Let_def)
qed

text \<open>
  C7, an instance of both parts, with the malformed pattern \<^verbatim>\<open>libs/[\<close> between two
  valid patterns of a manifest, and in the workspace file.
\<close>

theorem bad_pattern_handling_witness:
  "containsAny ''libs/['' ''*?[''
   \<and> glob osBadPattern (joinPath osBadPattern (dirOf osBadPattern ''package.json'') ''libs/['') = None
   \<and> workspaceMembers osBadPattern ''package.json'' ([''apps/*''] @ ''libs/['' # [''apps/web'']) =
       workspaceMembers osBadPattern ''package.json'' ([''apps/*''] @ [''apps/web''])
   \<and> workspaceMembers osBadPattern ''package.json'' ([''apps/*''] @ [''apps/web'']) = [''apps/web/package.json'']
   \<and> readYAML osBadPattern (dirOf osBadPattern ''package.json'' @ ''/pnpm-workspace.yaml'') =
       Some [''apps/*'', ''libs/['']
   \<and> ''libs/['' \<in> set (includePatternsOf osBadPattern (dirOf osBadPattern ''package.json'') [''apps/*'', ''libs/['']) 
   \<and> pnpmMembers osBadPattern ''package.json'' = []"
  using bad_pattern_handling [of "''libs/[''" osBadPattern "''package.json''" "[''apps/*'']" "[''apps/web'']"
      "[''apps/*'', ''libs/['']"]
  by (simp add: osBadPattern_def run_defs includePatternsOf_def excludePatternsOf_def isExclusion_def)

subsection \<open>C8: inclusion and exclusion patterns of a workspace file\<close>



subsection \<open>C6: package-manager inference on an absolute path\<close>

lemma no_lock_found:
  "d \<in> {''/proj'', ''/''} \<Longrightarrow> findLockFile osNoLockFile d knownLockFiles = None"
  by (auto simp: knownLockFiles_def osNoLockFile_def cleanJoin_def)

lemma dir_stays_absolute:
  "d \<in> {''/proj'', ''/''} \<Longrightarrow> dirOf osNoLockFile d \<in> {''/proj'', ''/''}"
  by (auto simp: osNoLockFile_def cleanDir_def)

lemma inferLoop_absolute:
  assumes "inferLoop os d = Some y"
  shows "os = osNoLockFile \<longrightarrow> d \<notin> {''/proj'', ''/''}"
proof (rule inferLoop.raw_induct
    [where P = "\<lambda>os d y. os = osNoLockFile \<longrightarrow> d \<notin> {''/proj'', ''/''}", OF _ assms])
  fix loop :: "fsys \<Rightarrow> string \<Rightarrow> string option" and os dir y
  assume IH: "\<And>os' d' y'. loop os' d' = Some y' \<Longrightarrow>
                 os' = osNoLockFile \<longrightarrow> d' \<notin> {''/proj'', ''/''}"
    and step: "(if dir \<noteq> ''.''
                then (case findLockFile os dir knownLockFiles of
                        None \<Rightarrow> loop os (dirOf os dir)
                      | Some pkgManager \<Rightarrow> Some pkgManager)
                else Some ''npm'') = Some y"
  show "os = osNoLockFile \<longrightarrow> dir \<notin> {''/proj'', ''/''}"
  proof (intro impI notI)
    assume os: "os = osNoLockFile" and d: "dir \<in> {''/proj'', ''/''}"
    from d have "dir \<noteq> ''.''" by auto
    with step os no_lock_found [OF d]
    have "loop osNoLockFile (dirOf osNoLockFile dir) = Some y" by simp
    from IH [OF this] dir_stays_absolute [OF d] show False by simp
  qed
qed

text \<open>
  C6, at the failing input. The loop ends only when the directory is \<^verbatim>\<open>.\<close>. Above an
  absolute path \<^verbatim>\<open>filepath.Dir\<close> arrives at \<^verbatim>\<open>/\<close> and stays there, so with no lock file
  in any ancestor the inference for \<^verbatim>\<open>/proj/package.json\<close> never returns; for the
  relative path \<^verbatim>\<open>proj/package.json\<close> it returns \<^verbatim>\<open>npm\<close>.
\<close>

theorem inference_never_returns:
  "inferPackageManager osNoLockFile ''/proj/package.json'' = None
   \<and> inferPackageManager osNoLockFile ''proj/package.json'' = Some ''npm''"
proof
  have "dirOf osNoLockFile ''/proj/package.json'' = ''/proj''"
    by (simp add: osNoLockFile_def cleanDir_def)
  moreover have "inferLoop osNoLockFile ''/proj'' = None"
    using inferLoop_absolute [of osNoLockFile "''/proj''"] by (cases "inferLoop osNoLockFile ''/proj''") auto
  ultimately show "inferPackageManager osNoLockFile ''/proj/package.json'' = None"
    by (simp add: inferPackageManager_def)
next
  show "inferPackageManager osNoLockFile ''proj/package.json'' = Some ''npm''"
    by (simp add: inferPackageManager_def inferLoop.simps osNoLockFile_def cleanDir_def
        cleanJoin_def knownLockFiles_def)
qed

subsection \<open>C9: one entry per script\<close>





subsection \<open>C10: the catalog as a set does not depend on the schedule\<close>

lemma gather_Inr_iff: "(\<exists>bs. gather rs = Inr bs) \<longleftrightarrow> (\<forall>r \<in> set rs. \<exists>b. r = Inr b)"
proof (induction rs)
  case Nil
  then show ?case by simp
next
  case (Cons r rs)
  then show ?case by (cases r) (auto split: sum.splits)
qed

lemma gather_Inr_mset:
  "gather rs = Inr bs \<Longrightarrow> mset bs = (\<Sum>r \<in># mset rs. mset (batchesOf r))"
proof (induction rs arbitrary: bs)
  case Nil
  then show ?case by simp
next
  case (Cons r rs)
  then show ?case by (cases r) (auto split: sum.splits)
qed

lemma gather_permuted:
  assumes "mset rs = mset rs'"
  shows "(\<forall>e. gather rs = Inl e \<longrightarrow> gather rs' = Inl e) \<and>
         (\<forall>bs. gather rs = Inr bs \<longrightarrow> (\<exists>bs'. gather rs' = Inr bs' \<and> mset bs' = mset bs))"
proof (intro conjI allI impI)
  fix e assume l: "gather rs = Inl e"
  have "\<not> (\<exists>bs. gather rs' = Inr bs)"
  proof
    assume "\<exists>bs. gather rs' = Inr bs"
    then have "\<forall>r \<in> set rs'. \<exists>b. r = Inr b" by (simp add: gather_Inr_iff)
    moreover have "set rs = set rs'" using assms by (rule mset_eq_setD)
    ultimately have "\<exists>bs. gather rs = Inr bs" by (simp add: gather_Inr_iff)
    with l show False by simp
  qed
  then obtain e' where "gather rs' = Inl e'" by (cases "gather rs'") auto
  moreover have "e' = e" by (cases e, cases e') simp
  ultimately show "gather rs' = Inl e" by simp
next
  fix bs assume r: "gather rs = Inr bs"
  then have "\<forall>r \<in> set rs. \<exists>b. r = Inr b" using gather_Inr_iff by blast
  moreover have "set rs = set rs'" using assms by (rule mset_eq_setD)
  ultimately obtain bs' where r': "gather rs' = Inr bs'" using gather_Inr_iff [of rs'] by auto
  have "mset bs' = mset bs"
    using gather_Inr_mset [OF r] gather_Inr_mset [OF r'] assms by simp
  with r' show "\<exists>bs'. gather rs' = Inr bs' \<and> mset bs' = mset bs" by blast
qed

lemma allBatches_permuted:
  assumes "mset ps = mset qs"
  shows "(\<forall>e. allBatches os ps = Inl e \<longrightarrow> allBatches os qs = Inl e) \<and>
         (\<forall>bs. allBatches os ps = Inr bs \<longrightarrow> (\<exists>bs'. allBatches os qs = Inr bs' \<and> mset bs' = mset bs))"
proof -
  have "mset (map (\<lambda>path. extractScriptsFromPackageJSON os path False) ps) =
        mset (map (\<lambda>path. extractScriptsFromPackageJSON os path False) qs)"
    using assms by (metis mset_map)
  from gather_permuted [OF this] show ?thesis by (simp add: allBatches_def)
qed

lemma mset_concat_arrival:
  assumes "arrival sent received"
  shows "mset (concat received) = mset (concat sent)"
proof -
  have "mset (concat xs) = sum_mset (mset (map mset xs))" for xs :: "'a list list"
    by (induction xs) simp_all
  with assms show ?thesis by (simp add: arrival_def)
qed

lemma arrival_permuted:
  assumes "mset bs' = mset bs" "arrival bs r" "arrival bs' r'"
  shows "mset (concat r) = mset (concat r')"
proof -
  have "mset (concat xs) = sum_mset (mset (map mset xs))" for xs :: "'a list list"
    by (induction xs) simp_all
  moreover have "mset (map mset bs') = mset (map mset bs)" using assms(1) by (metis mset_map)
  ultimately show ?thesis using assms(2,3) by (simp add: arrival_def)
qed

text \<open>
  C10. Two discovery runs over the same file-system state end the same way (no manifest
  found, a panic, or a catalog), and two catalogs have the same entries with the same
  multiplicities, hence the same set of entries, whatever the order in which paths and
  batches arrived and in which the maps were ranged over.
\<close>

theorem discovery_deterministic:
  assumes r1: "discovery os searchPath tree out1" and r2: "discovery os searchPath tree out2"
  shows "map_outcome mset out1 = map_outcome mset out2 \<and> map_outcome set out1 = map_outcome set out2"
proof -
  from r1 obtain ps where ps: "locatedBy os searchPath tree ps"
    and o1: "if ps = [] then out1 = NoPackageJSON
         else (case allBatches os ps of
                 Inl e \<Rightarrow> out1 = Crashed
               | Inr sent \<Rightarrow> (\<exists>received. arrival sent received \<and> out1 = Catalog (concat received)))"
    unfolding discovery_def by blast
  from r2 obtain qs where qs: "locatedBy os searchPath tree qs"
    and o2: "if qs = [] then out2 = NoPackageJSON
         else (case allBatches os qs of
                 Inl e \<Rightarrow> out2 = Crashed
               | Inr sent \<Rightarrow> (\<exists>received. arrival sent received \<and> out2 = Catalog (concat received)))"
    unfolding discovery_def by blast
  from ps qs have pq: "mset ps = mset qs" by (simp add: locatedBy_def)
  then have empty: "ps = [] \<longleftrightarrow> qs = []" by (metis mset_zero_iff)
  have m: "map_outcome mset out1 = map_outcome mset out2"
  proof (cases "ps = []")
    case True
    with empty o1 o2 show ?thesis by simp
  next
    case False
    with empty have nq: "qs \<noteq> []" by simp
    show ?thesis
    proof (cases "allBatches os ps")
      case (Inl e)
      with allBatches_permuted [OF pq, of os] have "allBatches os qs = Inl e" by simp
      with Inl False nq o1 o2 show ?thesis by simp
    next
      case (Inr sent)
      with allBatches_permuted [OF pq, of os] obtain sent' where
        s': "allBatches os qs = Inr sent'" "mset sent' = mset sent" by auto
      from o1 False Inr obtain r where r: "arrival sent r" "out1 = Catalog (concat r)" by auto
      from o2 nq s'(1) obtain r' where r': "arrival sent' r'" "out2 = Catalog (concat r')" by auto
      from arrival_permuted [OF s'(2) r(1) r'(1)] r(2) r'(2) show ?thesis by simp
    qed
  qed
  have "map_outcome set out = map_outcome set_mset (map_outcome mset out)" for out :: "NpmScript list outcome"
    by (cases out) simp_all
  with m show ?thesis by simp
qed

lemma treeObjectForm_paths: "findPackageJSON [] treeObjectForm = [[''package.json'']]"
  by (simp add: treeObjectForm_def)

text \<open>
  C10, an instance: two runs over the object-form example whose batches arrive in
  opposite orders.
\<close>

theorem discovery_deterministic_witness:
  "discovery osObjectForm ''.'' treeObjectForm
     (Catalog [\<lparr>PackageName = ''bar'', ScriptName = ''test'', Command = ''jest'',
                  AbsolutePath = ''pkgs/bar/package.json''\<rparr>,
               \<lparr>PackageName = ''foo'', ScriptName = ''build'', Command = ''tsc'',
                  AbsolutePath = ''pkgs/foo/package.json''\<rparr>])
   \<and> discovery osObjectForm ''.'' treeObjectForm
     (Catalog [\<lparr>PackageName = ''foo'', ScriptName = ''build'', Command = ''tsc'',
                  AbsolutePath = ''pkgs/foo/package.json''\<rparr>,
               \<lparr>PackageName = ''bar'', ScriptName = ''test'', Command = ''jest'',
                  AbsolutePath = ''pkgs/bar/package.json''\<rparr>])
   \<and> set [\<lparr>PackageName = ''bar'', ScriptName = ''test'', Command = ''jest'',
                  AbsolutePath = ''pkgs/bar/package.json''\<rparr>,
               \<lparr>PackageName = ''foo'', ScriptName = ''build'', Command = ''tsc'',
                  AbsolutePath = ''pkgs/foo/package.json''\<rparr>]
     = set [\<lparr>PackageName = ''foo'', ScriptName = ''build'', Command = ''tsc'',
                  AbsolutePath = ''pkgs/foo/package.json''\<rparr>,
               \<lparr>PackageName = ''bar'', ScriptName = ''test'', Command = ''jest'',
                  AbsolutePath = ''pkgs/bar/package.json''\<rparr>]"
proof -
  let ?bar = "\<lparr>PackageName = ''bar'', ScriptName = ''test'', Command = ''jest'',
                  AbsolutePath = ''pkgs/bar/package.json''\<rparr>"
  let ?foo = "\<lparr>PackageName = ''foo'', ScriptName = ''build'', Command = ''tsc'',
                  AbsolutePath = ''pkgs/foo/package.json''\<rparr>"
  have loc: "locatedBy osObjectForm ''.'' treeObjectForm [''package.json'']"
    by (simp add: locatedBy_def treeObjectForm_paths pathString_def osObjectForm_def
        osArrayForm_def cleanJoin_def)
  have sent: "allBatches osObjectForm [''package.json''] = Inr [[?bar], [?foo]]"
    by (simp add: osObjectForm_def osArrayForm_def run_defs)
  have a1: "arrival [[?bar], [?foo]] [[?bar], [?foo]]" by (simp add: arrival_def)
  have a2: "arrival [[?bar], [?foo]] [[?foo], [?bar]]" by (simp add: arrival_def)
  have d1: "discovery osObjectForm ''.'' treeObjectForm (Catalog [?bar, ?foo])"
    unfolding discovery_def
    by (rule exI [of _ "[''package.json'']"]) (use loc sent a1 in \<open>simp,
        intro exI [of _ "[[?bar], [?foo]]"], simp\<close>)
  have d2: "discovery osObjectForm ''.'' treeObjectForm (Catalog [?foo, ?bar])"
    unfolding discovery_def
    by (rule exI [of _ "[''package.json'']"]) (use loc sent a2 in \<open>simp,
        intro exI [of _ "[[?foo], [?bar]]"], simp\<close>)
  from discovery_deterministic [OF d1 d2] d1 d2 show ?thesis by simp
qed

subsection \<open>C2: what the locator emits\<close>

lemma findPackageJSON_prefix:
  "findPackageJSON path t = map ((@) path) (findPackageJSON [] t)"
proof (induction t arbitrary: path)
  case File
  then show ?case by simp
next
  case (Dir readable entries)
  have gen: "findPackageJSON q entry = map ((@) q) (findPackageJSON [] entry)"
    if "(name, entry) \<in> set entries" for name entry q
    using Dir.IH [of "(name, entry)" entry q] that by simp
  have step: "findPackageJSON (path @ [name]) entry =
      map ((@) path) (findPackageJSON ([] @ [name]) entry)"
    if "(name, entry) \<in> set entries" for name entry
  proof -
    have a: "findPackageJSON (path @ [name]) entry =
        map ((@) (path @ [name])) (findPackageJSON [] entry)"
      using gen [OF that] .
    have b: "findPackageJSON ([] @ [name]) entry =
        map ((@) ([] @ [name])) (findPackageJSON [] entry)"
      using gen [OF that] .
    show ?thesis unfolding a b by simp
  qed
  show ?case
    by (auto simp: map_concat step intro!: arg_cong [where f = concat])
qed

lemma findPackageJSON_wellFormed:
  assumes "wellFormed (Dir readable entries)"
  shows "findPackageJSON [] (Dir readable entries) =
     (if statIn (Dir readable entries) ''package.json'' then [[''package.json'']]
      else concat (map (\<lambda>(name, entry).
             if isDir entry \<and> \<not> ignoredDirs name
             then map ((#) name) (findPackageJSON [] entry) else []) entries))"
proof -
  have A: "map ((#) name) (findPackageJSON [] entry) = [[name, ''package.json'']]"
    if "(name, entry) \<in> set entries" "isDir entry" "statIn entry ''package.json''"
    for name entry
  proof (cases entry)
    case File
    with that show ?thesis by simp
  next
    case (Dir r es)
    with that assms have "r" by auto
    with Dir that show ?thesis by simp
  qed
  have B: "findPackageJSON [name] entry = map ((#) name) (findPackageJSON [] entry)"
    for name entry
    using findPackageJSON_prefix [of "[name]" entry] by simp
  have "(\<lambda>(name, entry). if isDir entry \<and> \<not> ignoredDirs name
             then (if statIn entry ''package.json'' then [([] @ [name]) @ [''package.json'']]
                   else findPackageJSON ([] @ [name]) entry)
             else []) x =
        (\<lambda>(name, entry). if isDir entry \<and> \<not> ignoredDirs name
             then map ((#) name) (findPackageJSON [] entry) else []) x"
    if "x \<in> set entries" for x
  proof -
    obtain name entry where x: "x = (name, entry)" by (cases x)
    show ?thesis using that A [of name entry] B [of name entry] by (simp add: x)
  qed
  then have eq: "map (\<lambda>(name, entry). if isDir entry \<and> \<not> ignoredDirs name
             then (if statIn entry ''package.json'' then [([] @ [name]) @ [''package.json'']]
                   else findPackageJSON ([] @ [name]) entry)
             else []) entries =
        map (\<lambda>(name, entry). if isDir entry \<and> \<not> ignoredDirs name
             then map ((#) name) (findPackageJSON [] entry) else []) entries"
    by (rule map_cong [OF refl])
  from assms have "readable" by simp
  then show ?thesis
    unfolding findPackageJSON.simps(2) [of "[]" readable entries] eq by simp
qed

lemma packageRoot_File: "\<not> packageRoot File d"
  by (cases d) (simp_all add: packageRoot_def holdsManifest_def)

lemma packageRoot_Nil: "packageRoot t [] \<longleftrightarrow> statIn t ''package.json''"
  by (simp add: packageRoot_def holdsManifest_def)

lemma holdsManifest_Cons:
  "holdsManifest (Dir r es) (name # d) \<longleftrightarrow>
     (\<exists>entry. map_of es name = Some entry \<and> holdsManifest entry d)"
  by (auto simp: holdsManifest_def split: option.splits)

lemma strict_prefix_Cons_iff:
  "strict_prefix d' (name # d) \<longleftrightarrow> d' = [] \<or> (\<exists>e. d' = name # e \<and> strict_prefix e d)"
  by (cases d') auto

lemma packageRoot_Cons:
  "packageRoot (Dir r es) (name # d) \<longleftrightarrow>
     \<not> statIn (Dir r es) ''package.json'' \<and> \<not> ignoredDirs name \<and>
     (\<exists>entry. map_of es name = Some entry \<and> packageRoot entry d)"
proof -
  have top: "holdsManifest (Dir r es) [] \<longleftrightarrow> statIn (Dir r es) ''package.json''"
    by (simp add: holdsManifest_def)
  have above: "(\<forall>d'. strict_prefix d' (name # d) \<longrightarrow> \<not> holdsManifest (Dir r es) d') \<longleftrightarrow>
      \<not> statIn (Dir r es) ''package.json'' \<and>
      (\<forall>e. strict_prefix e d \<longrightarrow> \<not> holdsManifest (Dir r es) (name # e))"
    unfolding strict_prefix_Cons_iff top [symmetric] by blast
  show ?thesis
    unfolding packageRoot_def above holdsManifest_Cons by auto
qed

lemma packageRoot_isDir: "packageRoot entry d \<Longrightarrow> isDir entry"
  using packageRoot_File by (cases entry) auto

lemma findPackageJSON_top:
  assumes "wellFormed (Dir readable entries)" "statIn (Dir readable entries) ''package.json''"
  shows "findPackageJSON [] (Dir readable entries) = [[''package.json'']]"
  using assms by simp

lemma findPackageJSON_below:
  assumes wf: "wellFormed (Dir readable entries)"
    and no: "\<not> statIn (Dir readable entries) ''package.json''"
  shows "p \<in> set (findPackageJSON [] (Dir readable entries)) \<longleftrightarrow>
          (\<exists>name entry q. (name, entry) \<in> set entries \<and> isDir entry \<and> \<not> ignoredDirs name \<and>
              q \<in> set (findPackageJSON [] entry) \<and> p = name # q)"
proof -
  let ?G = "\<lambda>(name, entry). if isDir entry \<and> \<not> ignoredDirs name
             then map ((#) name) (findPackageJSON [] entry) else []"
  have "findPackageJSON [] (Dir readable entries) = concat (map ?G entries)"
    using no by (simp only: findPackageJSON_wellFormed [OF wf] if_False)
  then have "p \<in> set (findPackageJSON [] (Dir readable entries)) \<longleftrightarrow>
      (\<exists>x \<in> set entries. p \<in> set (?G x))"
    by (simp only: set_concat set_map UN_iff bex_simps image_iff)
  also have "\<dots> \<longleftrightarrow> (\<exists>name entry. (name, entry) \<in> set entries \<and> p \<in> set (?G (name, entry)))"
    by auto
  also have "\<dots> \<longleftrightarrow> (\<exists>name entry q. (name, entry) \<in> set entries \<and> isDir entry \<and> \<not> ignoredDirs name \<and>
              q \<in> set (findPackageJSON [] entry) \<and> p = name # q)"
    by (auto split: if_splits)
  finally show ?thesis .
qed

lemma findPackageJSON_iff:
  "wellFormed t \<Longrightarrow>
   p \<in> set (findPackageJSON [] t) \<longleftrightarrow> (\<exists>d. p = d @ [''package.json''] \<and> packageRoot t d)"
proof (induction t arbitrary: p)
  case File
  then show ?case by (simp add: packageRoot_File)
next
  case (Dir readable entries)
  have IH: "q \<in> set (findPackageJSON [] entry) \<longleftrightarrow>
            (\<exists>d. q = d @ [''package.json''] \<and> packageRoot entry d)"
    if "(name, entry) \<in> set entries" for name entry q
    using Dir.IH [of "(name, entry)" entry q] Dir.prems that by auto
  from Dir.prems have dist: "distinct (map fst entries)" by simp
  show ?case
  proof (cases "statIn (Dir readable entries) ''package.json''")
    case True
    have "packageRoot (Dir readable entries) d \<longleftrightarrow> d = []" for d
    proof (cases d)
      case Nil
      with True show ?thesis by (simp add: packageRoot_Nil)
    next
      case (Cons name d')
      with True show ?thesis by (simp add: packageRoot_Cons)
    qed
    then show ?thesis
      unfolding findPackageJSON_top [OF Dir.prems True] by auto
  next
    case False
    have L: "p \<in> set (findPackageJSON [] (Dir readable entries)) \<longleftrightarrow>
          (\<exists>name entry q. (name, entry) \<in> set entries \<and> isDir entry \<and> \<not> ignoredDirs name \<and>
              q \<in> set (findPackageJSON [] entry) \<and> p = name # q)"
      by (rule findPackageJSON_below [OF Dir.prems False])
    have R: "(\<exists>d. p = d @ [''package.json''] \<and> packageRoot (Dir readable entries) d) \<longleftrightarrow>
          (\<exists>name entry d'. (name, entry) \<in> set entries \<and> \<not> ignoredDirs name \<and>
              packageRoot entry d' \<and> p = name # d' @ [''package.json''])"
    proof
      assume "\<exists>d. p = d @ [''package.json''] \<and> packageRoot (Dir readable entries) d"
      then obtain d where d: "p = d @ [''package.json'']" "packageRoot (Dir readable entries) d"
        by blast
      from d(2) False have "d \<noteq> []" by (auto simp: packageRoot_Nil)
      then obtain name d' where c: "d = name # d'" by (cases d) auto
      with d(2) obtain entry where "\<not> ignoredDirs name" "map_of entries name = Some entry"
        "packageRoot entry d'" by (auto simp: packageRoot_Cons)
      with d(1) c show "\<exists>name entry d'. (name, entry) \<in> set entries \<and> \<not> ignoredDirs name \<and>
              packageRoot entry d' \<and> p = name # d' @ [''package.json'']"
        by (auto dest: map_of_SomeD)
    next
      assume "\<exists>name entry d'. (name, entry) \<in> set entries \<and> \<not> ignoredDirs name \<and>
              packageRoot entry d' \<and> p = name # d' @ [''package.json'']"
      then obtain name entry d' where e: "(name, entry) \<in> set entries" "\<not> ignoredDirs name"
        "packageRoot entry d'" "p = name # d' @ [''package.json'']" by blast
      from e(1) dist have "map_of entries name = Some entry" by simp
      with e False have "packageRoot (Dir readable entries) (name # d')"
        by (simp add: packageRoot_Cons)
      with e(4) show "\<exists>d. p = d @ [''package.json''] \<and> packageRoot (Dir readable entries) d"
        by (intro exI [of _ "name # d'"]) simp
    qed
    have "(\<exists>name entry q. (name, entry) \<in> set entries \<and> isDir entry \<and> \<not> ignoredDirs name \<and>
              q \<in> set (findPackageJSON [] entry) \<and> p = name # q) \<longleftrightarrow>
          (\<exists>name entry d'. (name, entry) \<in> set entries \<and> \<not> ignoredDirs name \<and>
              packageRoot entry d' \<and> p = name # d' @ [''package.json''])"
    proof
      assume "\<exists>name entry q. (name, entry) \<in> set entries \<and> isDir entry \<and> \<not> ignoredDirs name \<and>
              q \<in> set (findPackageJSON [] entry) \<and> p = name # q"
      then obtain name entry q where a: "(name, entry) \<in> set entries" "\<not> ignoredDirs name"
        "q \<in> set (findPackageJSON [] entry)" "p = name # q" by blast
      from a(3) IH [OF a(1), of q] obtain d' where
        "q = d' @ [''package.json'']" "packageRoot entry d'" by blast
      with a show "\<exists>name entry d'. (name, entry) \<in> set entries \<and> \<not> ignoredDirs name \<and>
              packageRoot entry d' \<and> p = name # d' @ [''package.json'']" by blast
    next
      assume "\<exists>name entry d'. (name, entry) \<in> set entries \<and> \<not> ignoredDirs name \<and>
              packageRoot entry d' \<and> p = name # d' @ [''package.json'']"
      then obtain name entry d' where a: "(name, entry) \<in> set entries" "\<not> ignoredDirs name"
        "packageRoot entry d'" "p = name # d' @ [''package.json'']" by blast
      have "isDir entry" using a(3) by (rule packageRoot_isDir)
      moreover have "d' @ [''package.json''] \<in> set (findPackageJSON [] entry)"
        using IH [OF a(1), of "d' @ [''package.json'']"] a(3) by blast
      ultimately show "\<exists>name entry q. (name, entry) \<in> set entries \<and> isDir entry \<and>
              \<not> ignoredDirs name \<and> q \<in> set (findPackageJSON [] entry) \<and> p = name # q"
        using a by blast
    qed
    then show ?thesis unfolding L R .
  qed
qed

lemma distinct_concat_heads:
  assumes "distinct (map fst es)"
    and "\<And>n c. (n, c) \<in> set es \<Longrightarrow> distinct (f n c)"
    and "\<And>n c p. (n, c) \<in> set es \<Longrightarrow> p \<in> set (f n c) \<Longrightarrow> \<exists>q. p = n # q"
  shows "distinct (concat (map (\<lambda>(n, c). f n c) es))"
  using assms
proof (induction es)
  case Nil
  then show ?case by simp
next
  case (Cons a es)
  obtain n c where a: "a = (n, c)" by (cases a)
  have d1: "distinct (f n c)" using Cons.prems(2) a by simp
  have d2: "distinct (concat (map (\<lambda>(n, c). f n c) es))"
  proof (rule Cons.IH)
    show "distinct (map fst es)" using Cons.prems(1) by simp
    show "distinct (f n c)" if "(n, c) \<in> set es" for n c
      using Cons.prems(2) that by simp
    show "\<exists>q. p = n # q" if "(n, c) \<in> set es" "p \<in> set (f n c)" for n c p
      using Cons.prems(3) [of n c p] that by simp
  qed
  have "set (f n c) \<inter> set (concat (map (\<lambda>(n, c). f n c) es)) = {}"
  proof (rule ccontr)
    assume "set (f n c) \<inter> set (concat (map (\<lambda>(n, c). f n c) es)) \<noteq> {}"
    then obtain p n' c' where p: "p \<in> set (f n c)" "(n', c') \<in> set es" "p \<in> set (f n' c')"
      by auto
    from Cons.prems(3) [of n c p] p(1) a obtain q where "p = n # q" by auto
    moreover from Cons.prems(3) [of n' c' p] p(2,3) obtain q' where "p = n' # q'" by auto
    ultimately have "n = n'" by simp
    with p(2) Cons.prems(1) a show False by (auto simp: image_iff)
  qed
  with d1 d2 a show ?case by simp
qed

lemma findPackageJSON_distinct: "wellFormed t \<Longrightarrow> distinct (findPackageJSON [] t)"
proof (induction t)
  case File
  then show ?case by simp
next
  case (Dir readable entries)
  have IH: "distinct (findPackageJSON [] entry)" if "(name, entry) \<in> set entries" for name entry
    using Dir.IH [of "(name, entry)" entry] Dir.prems that by auto
  from Dir.prems have dist: "distinct (map fst entries)" by simp
  have "distinct (concat (map (\<lambda>(name, entry).
             if isDir entry \<and> \<not> ignoredDirs name
             then map ((#) name) (findPackageJSON [] entry) else []) entries))"
    by (rule distinct_concat_heads [OF dist]) (auto simp: distinct_map IH)
  with Dir.prems show ?case
    by (simp add: findPackageJSON_wellFormed del: findPackageJSON.simps wellFormed.simps statIn.simps)
qed

text \<open>
  C2, counterexample. The manifest \<^verbatim>\<open>sub/package.json\<close> is reached from the search root
  without crossing an ignored directory, but the search root holds a manifest itself:
  the walk stops there, and the nested manifest is not emitted. (The walk of the first
  iteration emits both manifests: it does descend below a directory that holds one.)
\<close>

theorem nested_manifest_not_emitted:
  "wellFormed treeNested
   \<and> lookup treeNested [''sub'', ''package.json''] = Some File
   \<and> \<not> ignoredDirs ''sub''
   \<and> findPackageJSON [] treeNested = [[''package.json'']]
   \<and> [''sub'', ''package.json''] \<notin> set (findPackageJSON [] treeNested)
   \<and> findPackageJSON_v1 [] treeNested = [[''package.json''], [''sub'', ''package.json'']]"
  by (simp add: treeNested_def ignoredDirs_def)

text \<open>
  C2, as amended. On a tree whose directories are readable and have different entry
  names, the locator emits exactly the manifest paths of the package roots (the
  directories that hold a manifest, reached through names that are not ignored and
  below no other directory that holds a manifest), each exactly once; and no name on an
  emitted path is an ignored directory name.
\<close>

theorem locator_emits_package_roots:
  assumes "wellFormed tree"
  shows "distinct (findPackageJSON [] tree)
     \<and> set (findPackageJSON [] tree) = {d @ [''package.json''] | d. packageRoot tree d}
     \<and> (\<forall>p \<in> set (findPackageJSON [] tree). \<forall>name \<in> set p. \<not> ignoredDirs name)"
proof -
  have s: "set (findPackageJSON [] tree) = {d @ [''package.json''] | d. packageRoot tree d}"
    using findPackageJSON_iff [OF assms] by blast
  have "\<not> ignoredDirs ''package.json''" by (simp add: ignoredDirs_def)
  then have "\<forall>p \<in> set (findPackageJSON [] tree). \<forall>name \<in> set p. \<not> ignoredDirs name"
    unfolding s by (auto simp: packageRoot_def)
  with s findPackageJSON_distinct [OF assms] show ?thesis by blast
qed

text \<open>
  C2, an instance: of four manifests in the tree, the two outermost ones outside
  \<^verbatim>\<open>node_modules\<close> are emitted.
\<close>

theorem locator_emits_package_roots_witness:
  "wellFormed treeMixed
   \<and> findPackageJSON [] treeMixed = [[''a'', ''package.json''], [''b'', ''c'', ''package.json'']]
   \<and> distinct (findPackageJSON [] treeMixed)
   \<and> set (findPackageJSON [] treeMixed) = {d @ [''package.json''] | d. packageRoot treeMixed d}
   \<and> \<not> ignoredDirs ''a'' \<and> \<not> ignoredDirs ''b'' \<and> \<not> ignoredDirs ''c''
   \<and> \<not> ignoredDirs ''package.json''"
proof -
  have wf: "wellFormed treeMixed" by (simp add: treeMixed_def)
  have paths: "findPackageJSON [] treeMixed =
      [[''a'', ''package.json''], [''b'', ''c'', ''package.json'']]"
    by (simp add: treeMixed_def ignoredDirs_def)
  from locator_emits_package_roots [OF wf]
  have "distinct (findPackageJSON [] treeMixed)"
    and "set (findPackageJSON [] treeMixed) = {d @ [''package.json''] | d. packageRoot treeMixed d}"
    and ign: "\<forall>p \<in> set (findPackageJSON [] treeMixed). \<forall>name \<in> set p. \<not> ignoredDirs name"
    by blast+
  moreover from ign have "\<not> ignoredDirs ''a'' \<and> \<not> ignoredDirs ''b'' \<and> \<not> ignoredDirs ''c''
      \<and> \<not> ignoredDirs ''package.json''"
    unfolding paths by simp
  ultimately show ?thesis using wf paths by blast
qed

end
